theory Spec2Isabelle
  imports Complex_Main "HOL-Library.AList" "HOL-Library.Sublist" "HOL-Library.Multiset"
begin

section \<open>The data of peaks\_to\_UTR.py\<close>

text \<open>
  A row of a broadPeak file, as the namedtuple \<open>Peak\<close> holds it:
  \<open>chr start end name score strand signalValue pValue qValue\<close>. The script reads
  \<open>start\<close> and \<open>end\<close> through \<open>int(...)\<close> wherever it compares them, so the two
  fields are kept here as the integers read; the other columns stay text.
\<close>

record peak =
  chr :: string
  p_start :: int
  p_end :: int
  name :: string
  p_score :: string
  p_strand :: string
  signalValue :: string
  pValue :: string
  qValue :: string

text \<open>
  A \<open>gffutils.Feature\<close>: the nine GFF columns, the attributes being a dictionary from
  a key to a list of values. The dictionary is an association list, updated with
  \<open>AList.update\<close>: an existing key keeps its place, a new key goes to the end, as in a
  Python \<open>dict\<close>. A feature read from the database also has its primary key \<open>id\<close>
  (\<open>fid\<close>); \<open>chrom\<close> is gffutils' other name for \<open>seqid\<close>.
\<close>

record feature =
  seqid :: string
  source :: string
  featuretype :: string
  f_start :: int
  f_end :: int
  score :: string
  strand :: string
  frame :: string
  attributes :: "(string \<times> string list) list"

record db_feature = feature +
  fid :: string

text \<open>
  The exceptions a run of the modelled code can end in: \<open>ValueError\<close> from the truth
  value of a feature of negative length (line 36 of the script), \<open>ZeroDivisionError\<close>
  and \<open>OverflowError\<close> from the division of line 162 of the package.
\<close>

datatype py_error = ZeroDivisionError | ValueError | OverflowError

text \<open>
  The feature database is used through one query only, \<open>db.region(seqid, start, end,
  strand)\<close>, so a database is that query.
\<close>

type_synonym feature_db = "string \<Rightarrow> int \<Rightarrow> int \<Rightarrow> string \<Rightarrow> db_feature list"

text \<open>
  gffutils is a library outside the repository. For the concrete examples a database is
  a list of features and \<open>region\<close> selects those on the sequence and the strand asked
  for that overlap the closed range, in the order they are stored.
\<close>

definition region :: "db_feature list \<Rightarrow> feature_db" where
  "region feats sq s e st =
     [f \<leftarrow> feats. seqid f = sq \<and> strand f = st \<and> f_start f \<le> e \<and> s \<le> f_end f]"

section \<open>The peak loop of peaks\_to\_UTR.py\<close>

definition maxDistanceFromTranscript :: int where
  "maxDistanceFromTranscript = 200"

text \<open>Lines 51 to 54: the attributes of the new feature.\<close>

definition utr_attrs :: "db_feature \<Rightarrow> (string \<times> string list) list" where
  "utr_attrs gene =
     AList.update ''colour'' [''3'']
       (AList.update ''Parent'' [fid gene]
         (AList.update ''ID'' [fid gene @ ''_UTR''] (attributes gene)))"

text \<open>Lines 55 to 65: the feature built for a gene and a peak.\<close>

definition utr_feature :: "db_feature \<Rightarrow> peak \<Rightarrow> feature" where
  "utr_feature gene pk =
     \<lparr> seqid = seqid gene,
       source = ''3pUTR_annotation'',
       featuretype = ''three_prime_UTR'',
       f_start = f_end gene,
       f_end = p_end pk,
       score = ''.'',
       strand = strand gene,
       frame = ''.'',
       attributes = utr_attrs gene \<rparr>"

text \<open>
  Lines 41 to 66: the body of \<open>for idx, gene in enumerate(genes)\<close> for one index,
  giving the feature it appends to \<open>out\<close>, if any. The loop calls it with
  \<open>idx < length genes\<close> only.
\<close>

definition gene_step :: "peak \<Rightarrow> db_feature list \<Rightarrow> nat \<Rightarrow> feature option" where
  "gene_step pk genes idx =
     (let gene = genes ! idx in
      if f_start gene < p_start pk \<and> f_end gene > p_end pk then None
      else if length genes > idx + 1 \<and>
              p_start pk < f_end gene \<and> p_end pk > f_start (genes ! (idx + 1)) then None
      else if p_end pk > f_end gene then Some (utr_feature gene pk)
      else None)"

text \<open>
  The loop over the genes, from index \<open>idx\<close> on. \<open>out\<close> is the output so far: the
  script appends the text of each feature to a string, the model keeps the features.
\<close>

function gene_loop :: "peak \<Rightarrow> db_feature list \<Rightarrow> nat \<Rightarrow> feature list \<Rightarrow> feature list" where
  "gene_loop pk genes idx out =
     (if idx < length genes
      then gene_loop pk genes (Suc idx)
             (case gene_step pk genes idx of None \<Rightarrow> out | Some f \<Rightarrow> out @ [f])
      else out)"
  by pat_completeness auto
termination
  by (relation "measure (\<lambda>(pk, genes, idx, out). length genes - idx)") auto

declare gene_loop.simps [simp del]

text \<open>Lines 29 to 34: the features near a peak, on the forward strand.\<close>

definition nearby_features :: "feature_db \<Rightarrow> peak \<Rightarrow> db_feature list" where
  "nearby_features db pk =
     db (chr pk) (p_start pk - maxDistanceFromTranscript)
        (p_end pk + maxDistanceFromTranscript) ''+''"

text \<open>Line 39.\<close>

definition genes_of :: "db_feature list \<Rightarrow> db_feature list" where
  "genes_of features = [f \<leftarrow> features. featuretype f = ''gene'']"

text \<open>
  Line 36 asks \<open>any\<close> of the list of the features of type \<open>three_prime_UTR\<close>, so it
  takes the truth value of each \<open>Feature\<close> in turn. gffutils gives a \<open>Feature\<close> a
  length, \<open>stop - start + 1\<close>, and no truth value of its own, so Python reads
  \<open>bool(f)\<close> from \<open>len(f)\<close>: false at length 0, true at a positive length, and a
  \<open>ValueError\<close> at a negative one.
\<close>

definition feature_len :: "'a feature_scheme \<Rightarrow> int" where
  "feature_len f = f_end f - f_start f + 1"

definition truth :: "'a feature_scheme \<Rightarrow> py_error + bool" where
  "truth f = (if feature_len f < 0 then Inl ValueError else Inr (feature_len f \<noteq> 0))"

text \<open>\<open>any\<close> of a list of features: the first true one ends the search, as does an error.\<close>

fun py_any :: "'a feature_scheme list \<Rightarrow> py_error + bool" where
  "py_any [] = Inr False"
| "py_any (f # fs) =
     (case truth f of
        Inl e \<Rightarrow> Inl e
      | Inr t \<Rightarrow> if t then Inr True else py_any fs)"

text \<open>
  Lines 28 to 69: the body of the loop over the peaks, giving the output after the peak,
  or the error that ends the run. The messages the script prints are not part of the
  model.
\<close>

definition process_peak :: "feature_db \<Rightarrow> peak \<Rightarrow> feature list \<Rightarrow> py_error + feature list" where
  "process_peak db pk out =
     (let features = nearby_features db pk in
      if features \<noteq> [] then
        (case py_any [f \<leftarrow> features. featuretype f = ''three_prime_UTR''] of
           Inl e \<Rightarrow> Inl e
         | Inr annotated \<Rightarrow>
             if annotated then Inr out
             else Inr (gene_loop pk (genes_of features) 0 out))
      else Inr out)"

fun peak_loop :: "feature_db \<Rightarrow> peak list \<Rightarrow> feature list \<Rightarrow> py_error + feature list" where
  "peak_loop db [] out = Inr out"
| "peak_loop db (pk # pks) out =
     (case process_peak db pk out of
        Inl e \<Rightarrow> Inl e
      | Inr out' \<Rightarrow> peak_loop db pks out')"

text \<open>
  The script: the database, the rows of \<open>forward_peaks.broadPeak\<close> and those of
  \<open>reverse_peaks.broadPeak\<close>. Line 22 names both files, lines 25 and 26 open the
  forward one only (line 24: \<open>TODO adapt for reverse strand as well\<close>). The result is
  what lines 71 and 72 write, which a run that raised does not reach.
\<close>

definition peaks_to_UTR ::
  "feature_db \<Rightarrow> peak list \<Rightarrow> peak list \<Rightarrow> py_error + feature list" where
  "peaks_to_UTR db forward_broad_peaks reverse_broad_peaks =
     peak_loop db forward_broad_peaks []"

section \<open>The checks of peaks2utr's \<open>_main\<close>\<close>

text \<open>
  The parsed command line (\<open>prepare_argparser\<close>). \<open>output_file\<close> is
  \<open>args.output\<close>, which is \<open>None\<close> when \<open>-o\<close> is not given.
\<close>

record args =
  GFF_IN :: string
  BAM_IN :: string
  max_distance :: int
  override_utr :: bool
  extend_utr :: bool
  five_prime_ext :: int
  skip_soft_clip :: bool
  min_pileups :: int
  min_poly_tail :: int
  processors :: int
  force :: bool
  output_file :: "string option"
  keep_cache :: bool

text \<open>
  Lines 124 and 125. \<open>gff_basename\<close> stands for
  \<open>os.path.basename(os.path.splitext(...)[0])\<close> of the standard library;
  \<open>not args.output\<close> holds for \<open>None\<close> and for the empty string.
\<close>

definition new_gff_fn :: "(string \<Rightarrow> string) \<Rightarrow> args \<Rightarrow> string" where
  "new_gff_fn gff_basename a =
     (case output_file a of
        None \<Rightarrow> gff_basename (GFF_IN a) @ ''.new.gff''
      | Some fn \<Rightarrow> if fn = [] then gff_basename (GFF_IN a) @ ''.new.gff'' else fn)"

text \<open>
  Lines 131 to 137: the two checks, giving the status of \<open>sys.exit\<close> when one of them
  fails. \<open>path_exists\<close> is \<open>os.path.exists\<close> on the file system of the run.
\<close>

definition perform_checks :: "(string \<Rightarrow> bool) \<Rightarrow> (string \<Rightarrow> string) \<Rightarrow> args \<Rightarrow> nat option" where
  "perform_checks path_exists gff_basename a =
     (if path_exists (new_gff_fn gff_basename a) \<and> \<not> force a then Some 1
      else if override_utr a \<and> extend_utr a then Some 1
      else None)"

text \<open>
  What a run of \<open>_main\<close> leaves behind, from the parsed arguments on: the exit status,
  the work done after the checks (lines 139 to 186: splitting the BAM file, building the
  database, calling peaks, annotating the peaks, writing the output), and whether the
  \<open>finally\<close> clause cleared the cache (lines 190 to 196). The stages after the checks
  call modules of the package that are not among the files verified here
  (\<open>preprocess\<close> apart), and line 143 reads \<open>bam_basename\<close>, which nothing binds;
  they are a parameter, \<open>pipeline\<close>, giving the exit status and the work done.
\<close>

record 'w run =
  exit_status :: nat
  work :: "'w list"
  cache_cleared :: bool

definition peaks2utr_main ::
  "(string \<Rightarrow> bool) \<Rightarrow> (string \<Rightarrow> string) \<Rightarrow> (args \<Rightarrow> nat \<times> 'w list) \<Rightarrow> args \<Rightarrow> 'w run" where
  "peaks2utr_main path_exists gff_basename pipeline a =
     (case perform_checks path_exists gff_basename a of
        Some status \<Rightarrow> \<lparr> exit_status = status, work = [], cache_cleared = \<not> keep_cache a \<rparr>
      | None \<Rightarrow>
          \<lparr> exit_status = fst (pipeline a), work = snd (pipeline a),
            cache_cleared = \<not> keep_cache a \<rparr>)"

text \<open>The defaults of the argument parser, for two example file names.\<close>

definition default_args :: args where
  "default_args =
     \<lparr> GFF_IN = ''genes.gff'', BAM_IN = ''reads.bam'', max_distance = 200,
       override_utr = False, extend_utr = False, five_prime_ext = 0, skip_soft_clip = False,
       min_pileups = 10, min_poly_tail = 10, processors = 1, force = False, output_file = None,
       keep_cache = False \<rparr>"

section \<open>The batches of \<open>_main\<close>\<close>

text \<open>
  \<open>math.ceil(a / b)\<close> on integers, as line 162 has it. Python divides in floating
  point: \<open>a / b\<close> is the double nearest to the quotient, and \<open>math.ceil\<close> is exact on
  a double. With \<open>a\<close> and \<open>b\<close> below \<open>2^52\<close> in size the double nearest to a
  quotient that is not an integer lies strictly between the same two integers, and an
  integer quotient is a double, so the result is the ceiling of the quotient. Beyond that
  size the result is what the floating-point division gives (a rounded quotient, 0 on
  underflow, an \<open>OverflowError\<close>): the parameter \<open>beyond\<close>. Division by 0 raises first.
\<close>

definition ceil_true_div :: "(int \<Rightarrow> int \<Rightarrow> py_error + int) \<Rightarrow> int \<Rightarrow> int \<Rightarrow> py_error + int" where
  "ceil_true_div beyond a b =
     (if b = 0 then Inl ZeroDivisionError
      else if \<bar>a\<bar> < 2 ^ 52 \<and> \<bar>b\<bar> < 2 ^ 52 then Inr (- ((- a) div b))
      else beyond a b)"

text \<open>
  Modelled from the spec: \<open>iter_batches\<close> (\<open>peaks2utr/utils.py\<close> is not among the
  files verified here). Section 4.1: the collection is split by count into consecutive parts of the
  given size, the last one holding what is left, the order within each part preserved.
  An empty collection gives no part; so does a size that is not positive, about which
  the spec says nothing.
\<close>

function iter_batches :: "'a list \<Rightarrow> int \<Rightarrow> 'a list list" where
  "iter_batches lst n =
     (if lst = [] \<or> n \<le> 0 then []
      else take (nat n) lst # iter_batches (drop (nat n) lst) n)"
  by pat_completeness auto
termination
  by (relation "measure (\<lambda>(lst, n). length lst)") auto

declare iter_batches.simps [simp del]

text \<open>Line 162: \<open>iter_batches(peaks, math.ceil(total_peaks / args.processors))\<close>.\<close>

definition batches ::
  "(int \<Rightarrow> int \<Rightarrow> py_error + int) \<Rightarrow> 'a list \<Rightarrow> int \<Rightarrow> py_error + 'a list list" where
  "batches beyond peaks procs =
     (case ceil_true_div beyond (int (length peaks)) procs of
        Inl e \<Rightarrow> Inl e
      | Inr n \<Rightarrow> Inr (iter_batches peaks n))"

section \<open>The aggregation of \<open>_main\<close>\<close>

text \<open>
  What a worker puts on the queue for one peak, as lines 171 to 175 tell the cases apart:
  \<open>None\<close>, the class \<open>NoNearbyFeatures\<close>, or any other object.
\<close>

datatype 'a result = RNone | NoNearbyFeatures | Other 'a

text \<open>
  Modelled from the spec: \<open>Annotations\<close> (\<open>peaks2utr/annotations.py\<close> is not among
  the files verified here). Section 3: the annotation set holds the counter of peaks with no nearby
  features beside the annotations themselves, and section 4.6: recording a result
  (\<open>update\<close>) changes the annotations and leaves that counter alone. So \<open>update\<close> is a
  function on \<open>data\<close>, and a parameter of the loop.
\<close>

record 'd annotations =
  no_features_counter :: nat
  data :: 'd

text \<open>
  Lines 171 to 175, for one result. \<open>truthy\<close> is Python's truth value of the objects
  other than \<open>None\<close> and the class, which is true.
\<close>

fun aggregate_result ::
  "('a \<Rightarrow> bool) \<Rightarrow> ('d \<Rightarrow> 'a \<Rightarrow> 'd) \<Rightarrow> 'd annotations \<Rightarrow> 'a result \<Rightarrow> 'd annotations" where
  "aggregate_result truthy update ann RNone = ann"
| "aggregate_result truthy update ann NoNearbyFeatures =
     ann \<lparr> no_features_counter := no_features_counter ann + 1 \<rparr>"
| "aggregate_result truthy update ann (Other x) =
     (if truthy x then ann \<lparr> data := update (data ann) x \<rparr> else ann)"

text \<open>
  Line 170: the results \<open>yield_from_process\<close> yields while one process is waited for,
  in the order they arrive.
\<close>

fun aggregate_process ::
  "('a \<Rightarrow> bool) \<Rightarrow> ('d \<Rightarrow> 'a \<Rightarrow> 'd) \<Rightarrow> 'd annotations \<Rightarrow> 'a result list \<Rightarrow> 'd annotations" where
  "aggregate_process truthy update ann [] = ann"
| "aggregate_process truthy update ann (r # rs) =
     aggregate_process truthy update (aggregate_result truthy update ann r) rs"

text \<open>Lines 169 to 175: the loop over the processes.\<close>

fun aggregate ::
  "('a \<Rightarrow> bool) \<Rightarrow> ('d \<Rightarrow> 'a \<Rightarrow> 'd) \<Rightarrow> 'd annotations \<Rightarrow> 'a result list list \<Rightarrow> 'd annotations" where
  "aggregate truthy update ann [] = ann"
| "aggregate truthy update ann (ys # yss) =
     aggregate truthy update (aggregate_process truthy update ann ys) yss"


section \<open>The merge of the annotation set\<close>

text \<open>
  Modelled from the spec: the strand of a genomic interval, section 3 (forward or reverse).
\<close>

datatype strand_dir = forward | reverse

text \<open>
  Modelled from the spec: \<open>GenomicInterval\<close>, section 3: a chromosome, a range and a
  strand.
\<close>

record genomic_interval =
  chromosome :: string
  iv_start :: int
  iv_end :: int
  iv_strand :: strand_dir

text \<open>
  Modelled from the spec: the flags of an \<open>AnnotationRecord\<close>, section 3.
\<close>

datatype flag = zero_coverage_warning | truncated | extended_existing

text \<open>
  Modelled from the spec: \<open>AnnotationRecord\<close>, section 3: the gene, its UTR range and
  a set of flags.
\<close>

record annotation_record =
  gene_id :: string
  utr_range :: genomic_interval
  flags :: "flag set"

text \<open>
  Modelled from the spec: what one peak claims for a gene, the record together with the
  \<open>signal_value\<close> of the peak (section 3), which the tie-break of section 4.3 reads.
\<close>

type_synonym claim = "annotation_record \<times> real"

text \<open>
  Modelled from the spec: the outcomes of the decision engine that reach \<open>update\<close>
  (sections 4.3 and 4.6): a confirmed UTR, or \<open>PotentialUTRZeroCoverage\<close>, which may
  name a gene.
\<close>

datatype outcome = Confirmed claim | PotentialUTRZeroCoverage "claim option"

text \<open>
  Modelled from the spec: \<open>AnnotationSet\<close>, section 3: a mapping from the gene id to
  the record that holds it, with unique keys, and the counter of zero-coverage outcomes.
  The counter of peaks with no nearby features is \<open>no_features_counter\<close> above.
\<close>

record annotation_set =
  records :: "string \<rightharpoonup> claim"
  zero_coverage_count :: nat

text \<open>
  Modelled from the spec: the length of the UTR range of a claim, which section 4.3
  compares.
\<close>

definition range_length :: "claim \<Rightarrow> int" where
  "range_length c = iv_end (utr_range (fst c)) - iv_start (utr_range (fst c))"

text \<open>Modelled from the spec: the gene a claim is for, the key of the mapping.\<close>

definition claimed_gene :: "claim \<Rightarrow> string" where
  "claimed_gene c = gene_id (fst c)"

text \<open>
  Modelled from the spec: the tie-break of section 4.3 between a new claim and the one
  the gene holds: \<open>the record with the longer confirmed UTR range wins; on exact tie, the
  peak with higher signal_value wins; ties after that keep the first-seen record\<close>. So
  the new claim replaces the old one only when it is longer, or as long with a higher
  signal value.
\<close>

definition wins :: "claim \<Rightarrow> claim \<Rightarrow> bool" where
  "wins new old =
     (range_length old < range_length new \<or>
      (range_length new = range_length old \<and> snd old < snd new))"

text \<open>
  Modelled from the spec: section 4.6, \<open>a confirmed record is inserted, applying the
  tie-break rule of section 4.3 if the gene_id already has an entry\<close>.
\<close>

definition insert_claim :: "(string \<rightharpoonup> claim) \<Rightarrow> claim \<Rightarrow> (string \<rightharpoonup> claim)" where
  "insert_claim m c =
     (case m (claimed_gene c) of
        None \<Rightarrow> m(claimed_gene c \<mapsto> c)
      | Some old \<Rightarrow> if wins c old then m(claimed_gene c \<mapsto> c) else m)"

text \<open>
  Modelled from the spec: \<open>Annotations.update\<close> (\<open>peaks2utr/annotations.py\<close> is not
  among the files verified here), section 4.6: a confirmed record is inserted;
  \<open>PotentialUTRZeroCoverage\<close> increments the zero-coverage counter and is also recorded
  if it names a gene, under the same tie-break, the only rule the spec gives for a gene
  that already has an entry.
\<close>

fun update_set :: "annotation_set \<Rightarrow> outcome \<Rightarrow> annotation_set" where
  "update_set a (Confirmed c) = a \<lparr> records := insert_claim (records a) c \<rparr>"
| "update_set a (PotentialUTRZeroCoverage None) =
     a \<lparr> zero_coverage_count := zero_coverage_count a + 1 \<rparr>"
| "update_set a (PotentialUTRZeroCoverage (Some c)) =
     a \<lparr> zero_coverage_count := zero_coverage_count a + 1,
         records := insert_claim (records a) c \<rparr>"

text \<open>
  Modelled from the spec: section 3, the annotation set is \<open>created empty at pipeline
  start\<close>.
\<close>

definition empty_annotations :: "annotation_set annotations" where
  "empty_annotations =
     \<lparr> no_features_counter = 0,
       data = \<lparr> records = Map.empty, zero_coverage_count = 0 \<rparr> \<rparr>"

text \<open>
  The loop of lines 169 to 175 over the results as they arrive, with the \<open>update\<close> of
  the spec, from the empty set. An outcome is an object that is neither \<open>None\<close> nor
  empty, so line 171 finds it true.
\<close>

definition merge_results :: "outcome result list list \<Rightarrow> annotation_set annotations" where
  "merge_results yielded = aggregate (\<lambda>x. True) update_set empty_annotations yielded"

text \<open>The claims that a list of results carries.\<close>

fun claims_of :: "outcome result \<Rightarrow> claim list" where
  "claims_of (Other (Confirmed c)) = [c]"
| "claims_of (Other (PotentialUTRZeroCoverage (Some c))) = [c]"
| "claims_of _ = []"

definition claims :: "outcome result list \<Rightarrow> claim set" where
  "claims rs = (\<Union>r \<in> set rs. set (claims_of r))"

text \<open>
  Two claims are in a full tie when they are for the same gene with the same range
  length and the same signal value: the case that section 4.3 settles by arrival.
\<close>

definition full_tie :: "claim \<Rightarrow> claim \<Rightarrow> bool" where
  "full_tie c c' =
     (claimed_gene c = claimed_gene c' \<and> range_length c = range_length c' \<and> snd c = snd c')"

definition no_full_ties :: "claim set \<Rightarrow> bool" where
  "no_full_ties S = (\<forall>c \<in> S. \<forall>c' \<in> S. full_tie c c' \<longrightarrow> c = c')"

text \<open>
  The invariant of the merge: each gene holds the claim that wins against every other
  claim made for it, and a gene holds nothing only when nothing was claimed for it.
\<close>

definition best :: "claim set \<Rightarrow> string \<Rightarrow> claim \<Rightarrow> bool" where
  "best S g e =
     (e \<in> S \<and> claimed_gene e = g \<and> (\<forall>c \<in> S. claimed_gene c = g \<longrightarrow> c = e \<or> wins e c))"

definition represents :: "claim set \<Rightarrow> (string \<rightharpoonup> claim) \<Rightarrow> bool" where
  "represents S m =
     (\<forall>g. case m g of None \<Rightarrow> (\<forall>c \<in> S. claimed_gene c \<noteq> g) | Some e \<Rightarrow> best S g e)"

text \<open>The results that the zero-coverage counter counts.\<close>

fun zero_coverage :: "outcome result \<Rightarrow> bool" where
  "zero_coverage (Other (PotentialUTRZeroCoverage co)) = True"
| "zero_coverage _ = False"

section \<open>Example data\<close>

text \<open>
  Concrete genes, peaks and databases, for evaluating the loop on explicit inputs.
\<close>

definition example_gene :: "string \<Rightarrow> string \<Rightarrow> int \<Rightarrow> int \<Rightarrow> db_feature" where
  "example_gene i st s e =
     \<lparr> seqid = ''chr1'', source = ''ensembl'', featuretype = ''gene'', f_start = s, f_end = e,
       score = ''.'', strand = st, frame = ''.'', attributes = [(''ID'', [i])], fid = i \<rparr>"

definition example_peak :: "string \<Rightarrow> int \<Rightarrow> int \<Rightarrow> peak" where
  "example_peak n s e =
     \<lparr> chr = ''chr1'', p_start = s, p_end = e, name = n, p_score = ''0'', p_strand = ''.'',
       signalValue = ''1'', pValue = ''1'', qValue = ''1'' \<rparr>"

definition nested_db :: feature_db where
  "nested_db = region [example_gene ''g1'' ''+'' 100 1000, example_gene ''g2'' ''+'' 200 400]"

definition adjacent_db :: feature_db where
  "adjacent_db = region [example_gene ''gA'' ''+'' 100 500, example_gene ''gB'' ''+'' 600 800]"

definition annotated_db :: feature_db where
  "annotated_db = region
     [example_gene ''gA'' ''+'' 100 500,
      (example_gene ''gA_utr'' ''+'' 501 550)
        \<lparr> featuretype := ''three_prime_UTR'', attributes := [(''Parent'', [''gA''])] \<rparr>,
      example_gene ''gB'' ''+'' 700 900]"

definition single_db :: feature_db where
  "single_db = region [example_gene ''g'' ''+'' 500 1000]"

definition coloured_db :: feature_db where
  "coloured_db = region
     [(example_gene ''g'' ''+'' 500 1000)
        \<lparr> attributes := [(''ID'', [''g'']), (''colour'', [''5'']), (''Name'', [''abc''])] \<rparr>]"

definition zero_length_db :: feature_db where
  "zero_length_db = region
     [example_gene ''gA'' ''+'' 100 500,
      (example_gene ''gA_utr'' ''+'' 501 500) \<lparr> featuretype := ''three_prime_UTR'' \<rparr>,
      example_gene ''gB'' ''+'' 700 900]"

definition negative_length_db :: feature_db where
  "negative_length_db = region
     [example_gene ''gA'' ''+'' 100 500,
      (example_gene ''gA_utr'' ''+'' 501 499) \<lparr> featuretype := ''three_prime_UTR'' \<rparr>,
      example_gene ''gB'' ''+'' 700 900]"

definition reverse_db :: feature_db where
  "reverse_db = region [example_gene ''g'' ''-'' 500 1000]"



text \<open>A record for the gene \<open>g\<close> with a UTR from 1000 to the given end.\<close>

definition example_record :: "int \<Rightarrow> flag set \<Rightarrow> annotation_record" where
  "example_record e fl =
     \<lparr> gene_id = ''g'',
       utr_range = \<lparr> chromosome = ''chr1'', iv_start = 1000, iv_end = e, iv_strand = forward \<rparr>,
       flags = fl \<rparr>"

section \<open>Properties of the peak loop\<close>

lemma gene_loop_eq:
  "gene_loop pk genes idx out = out @ List.map_filter (gene_step pk genes) [idx..<length genes]"
proof (induction pk genes idx out rule: gene_loop.induct)
  case (1 pk genes idx out)
  show ?case
  proof (cases "idx < length genes")
    case True
    then have u: "[idx..<length genes] = idx # [Suc idx..<length genes]"
      by (simp add: upt_conv_Cons)
    from True 1 show ?thesis
      by (subst gene_loop.simps) (simp add: u List.map_filter_simps split: option.splits)
  next
    case False
    then show ?thesis
      by (subst gene_loop.simps) (simp add: List.map_filter_simps)
  qed
qed

lemma set_gene_loop:
  "set (gene_loop pk genes 0 []) =
     {f. \<exists>idx < length genes. gene_step pk genes idx = Some f}"
  by (force simp: gene_loop_eq List.map_filter_def image_iff)

lemma py_any_well_formed:
  assumes "fs \<noteq> []" and "\<forall>f \<in> set fs. f_start f \<le> f_end f"
  shows "py_any fs = Inr True"
  using assms by (cases fs) (simp_all add: truth_def feature_len_def)

lemma process_peak_Inr:
  assumes "process_peak db pk out = Inr out'"
  shows "\<exists>added. process_peak db pk [] = Inr added \<and> out' = out @ added"
  using assms unfolding process_peak_def Let_def
  by (auto simp: gene_loop_eq split: if_splits sum.splits)

lemma in_process_peak:
  assumes "process_peak db pk [] = Inr added" and "f \<in> set added"
  shows "\<exists>idx < length (genes_of (nearby_features db pk)).
            gene_step pk (genes_of (nearby_features db pk)) idx = Some f"
  using assms unfolding process_peak_def Let_def
  by (auto simp: set_gene_loop split: if_splits sum.splits)

lemma gene_step_Some:
  assumes "gene_step pk genes idx = Some f"
  shows "f = utr_feature (genes ! idx) pk"
    and "\<not> (f_start (genes ! idx) < p_start pk \<and> p_end pk < f_end (genes ! idx))"
    and "\<not> (Suc idx < length genes \<and> p_start pk < f_end (genes ! idx) \<and>
             f_start (genes ! Suc idx) < p_end pk)"
    and "f_end (genes ! idx) < p_end pk"
  using assms by (auto simp: gene_step_def Let_def split: if_splits)

lemma map_of_utr_attrs:
  "map_of (utr_attrs gene) =
     (map_of (attributes gene))(''ID'' \<mapsto> [fid gene @ ''_UTR''], ''Parent'' \<mapsto> [fid gene],
        ''colour'' \<mapsto> [''3''])"
  by (simp add: utr_attrs_def update_conv')

lemma parent_utr_feature:
  "map_of (attributes (utr_feature gene pk)) ''Parent'' = Some [fid gene]"
  by (simp add: utr_feature_def map_of_utr_attrs)

lemma no_record_for_skipped:
  assumes d: "distinct (map fid genes)" and i: "idx < length genes"
    and n: "gene_step pk genes idx = None"
    and j: "j < length genes" and s: "gene_step pk genes j = Some f"
  shows "map_of (attributes f) ''Parent'' \<noteq> Some [fid (genes ! idx)]"
proof
  assume p: "map_of (attributes f) ''Parent'' = Some [fid (genes ! idx)]"
  from s have "f = utr_feature (genes ! j) pk" by (rule gene_step_Some)
  with p have "fid (genes ! j) = fid (genes ! idx)" by (simp add: parent_utr_feature)
  then have "map fid genes ! j = map fid genes ! idx" using i j by simp
  moreover have "j < length (map fid genes)" "idx < length (map fid genes)" using i j by simp_all
  ultimately have "j = idx" using d nth_eq_iff_index_eq by blast
  with n s show False by simp
qed

lemma in_peak_loop:
  assumes "peak_loop db pks out = Inr out'" and "f \<in> set out'"
  shows "f \<in> set out \<or>
         (\<exists>pk \<in> set pks. \<exists>added. process_peak db pk [] = Inr added \<and> f \<in> set added)"
  using assms
proof (induction pks arbitrary: out)
  case Nil
  then show ?case by simp
next
  case (Cons pk pks)
  from Cons.prems(1) obtain mid where m: "process_peak db pk out = Inr mid"
    and l: "peak_loop db pks mid = Inr out'"
    by (auto split: sum.splits)
  from process_peak_Inr [OF m] obtain added where a: "process_peak db pk [] = Inr added"
    and e: "mid = out @ added" by blast
  from Cons.IH [OF l Cons.prems(2)] show ?case
  proof
    assume "f \<in> set mid"
    with e a show ?thesis by auto
  next
    assume "\<exists>pk \<in> set pks. \<exists>added. process_peak db pk [] = Inr added \<and> f \<in> set added"
    then show ?thesis by auto
  qed
qed

lemma gene_step_emits:
  assumes "\<not> (f_start (genes ! idx) < p_start pk \<and> p_end pk < f_end (genes ! idx))"
    and "\<not> (Suc idx < length genes \<and> p_start pk < f_end (genes ! idx) \<and>
             f_start (genes ! Suc idx) < p_end pk)"
    and "f_end (genes ! idx) < p_end pk"
  shows "gene_step pk genes idx = Some (utr_feature (genes ! idx) pk)"
  using assms by (auto simp: gene_step_def Let_def)

lemma process_peak_genes:
  assumes "\<not> list_ex (\<lambda>f. featuretype f = ''three_prime_UTR'') (nearby_features db pk)"
  shows "process_peak db pk [] = Inr (gene_loop pk (genes_of (nearby_features db pk)) 0 [])"
proof -
  from assms have "[f \<leftarrow> nearby_features db pk. featuretype f = ''three_prime_UTR''] = []"
    by (simp add: list_ex_iff filter_empty_conv)
  then show ?thesis
    by (simp add: process_peak_def Let_def genes_of_def gene_loop_eq List.map_filter_simps)
qed

lemmas eval_simps =
  process_peak_def nearby_features_def region_def genes_of_def example_gene_def
  example_peak_def maxDistanceFromTranscript_def gene_loop.simps gene_step_def Let_def
  truth_def feature_len_def nested_db_def adjacent_db_def annotated_db_def single_db_def coloured_db_def reverse_db_def

section \<open>Properties of the batches\<close>

lemma concat_iter_batches:
  "lst = [] \<or> 0 < n \<Longrightarrow> concat (iter_batches lst n) = lst"
proof (induction lst n rule: iter_batches.induct)
  case (1 lst n)
  show ?case
  proof (cases "lst = []")
    case True
    then show ?thesis by (subst iter_batches.simps) simp
  next
    case False
    with 1 show ?thesis by (subst iter_batches.simps) simp
  qed
qed

lemma iter_batches_parts:
  "b \<in> set (iter_batches lst n) \<Longrightarrow> b \<noteq> [] \<and> int (length b) \<le> n"
proof (induction lst n rule: iter_batches.induct)
  case (1 lst n)
  have "b \<in> set (if lst = [] \<or> n \<le> 0 then []
                   else take (nat n) lst # iter_batches (drop (nat n) lst) n)"
    using "1.prems" by (subst (asm) iter_batches.simps)
  then have ne: "lst \<noteq> []" and pos: "0 < n"
    and m: "b = take (nat n) lst \<or> b \<in> set (iter_batches (drop (nat n) lst) n)"
    by (auto split: if_splits)
  from m show ?case
  proof
    assume "b = take (nat n) lst"
    with ne pos show ?thesis by auto
  next
    assume "b \<in> set (iter_batches (drop (nat n) lst) n)"
    with 1 ne pos show ?thesis by simp
  qed
qed

lemma ceiling_bounds:
  assumes "0 < (b::int)"
  shows "a \<le> (- ((- a) div b)) * b" and "(- ((- a) div b) - 1) * b < a"
proof -
  define q where "q = (- a) div b"
  define r where "r = (- a) mod b"
  have e: "- a = q * b + r" by (simp add: q_def r_def)
  from assms have r: "0 \<le> r" "r < b" by (simp_all add: r_def)
  have m: "(- q) * b = - (q * b)" and m1: "(- q - 1) * b = - (q * b) - b"
    by (simp_all add: algebra_simps)
  from e r show "a \<le> (- ((- a) div b)) * b"
    unfolding q_def [symmetric] m by linarith
  from e r show "(- ((- a) div b) - 1) * b < a"
    unfolding q_def [symmetric] m1 by linarith
qed

lemma length_iter_batches_le:
  "0 \<le> m \<Longrightarrow> int (length lst) \<le> m * n \<Longrightarrow> int (length (iter_batches lst n)) \<le> m"
proof (induction lst n arbitrary: m rule: iter_batches.induct)
  case (1 lst n)
  show ?case
  proof (cases "lst = [] \<or> n \<le> 0")
    case True
    with "1.prems" show ?thesis by (subst iter_batches.simps) simp
  next
    case False
    then have ne: "lst \<noteq> []" and pos: "0 < n" by simp_all
    from ne have lp: "0 < int (length lst)" by simp
    have "0 < m"
    proof (rule ccontr)
      assume "\<not> 0 < m"
      with "1.prems"(1) have "m = 0" by simp
      with "1.prems"(2) lp show False by simp
    qed
    then have m1: "0 \<le> m - 1" by simp
    have "int (length (drop (nat n) lst)) \<le> int (length lst) - n \<or>
          length (drop (nat n) lst) = 0"
      using pos by auto
    then have "int (length (drop (nat n) lst)) \<le> (m - 1) * n"
    proof
      assume "int (length (drop (nat n) lst)) \<le> int (length lst) - n"
      with "1.prems"(2) show ?thesis by (simp add: algebra_simps)
    next
      assume "length (drop (nat n) lst) = 0"
      with m1 pos show ?thesis by simp
    qed
    with "1.IH" [OF False m1] have "int (length (iter_batches (drop (nat n) lst) n)) \<le> m - 1"
      by simp
    with False show ?thesis by (subst iter_batches.simps) simp
  qed
qed

lemma subseq_concat_part: "b \<in> set bs \<Longrightarrow> subseq b (concat bs)"
proof (induction bs)
  case Nil
  then show ?case by simp
next
  case (Cons x xs)
  show ?case
  proof (cases "b = x")
    case True
    then show ?thesis by (simp add: prefix_imp_subseq)
  next
    case False
    with Cons have "subseq b (concat xs)" by simp
    then show ?thesis by (simp add: subseq_drop_many)
  qed
qed

lemma parts_disjoint:
  "distinct (concat bs) \<Longrightarrow> i < j \<Longrightarrow> j < length bs \<Longrightarrow> set (bs ! i) \<inter> set (bs ! j) = {}"
proof (induction bs arbitrary: i j)
  case Nil
  then show ?case by simp
next
  case (Cons x xs)
  from Cons.prems(2) obtain j' where j': "j = Suc j'" by (cases j) auto
  with Cons.prems have jl: "j' < length xs" by simp
  from Cons.prems(1) have dx: "set x \<inter> set (concat xs) = {}" and dc: "distinct (concat xs)"
    by auto
  show ?case
  proof (cases i)
    case 0
    from jl have "xs ! j' \<in> set xs" by simp
    then have "set (xs ! j') \<subseteq> set (concat xs)" by auto
    with dx 0 j' show ?thesis by auto
  next
    case (Suc i')
    with Cons.prems j' have "i' < j'" by simp
    from Cons.IH [OF dc this jl] Suc j' show ?thesis by simp
  qed
qed

section \<open>Properties of the aggregation\<close>

lemma counter_aggregate_process:
  "no_features_counter (aggregate_process truthy update ann rs) =
     no_features_counter ann + count_list rs NoNearbyFeatures"
proof (induction rs arbitrary: ann)
  case Nil
  then show ?case by simp
next
  case (Cons r rs)
  show ?case by (cases r) (simp_all add: Cons.IH)
qed




section \<open>Properties of the merge\<close>

text \<open>
  The tie-break is a strict order on the claims for one gene, total where no two claims
  are in a full tie; so the best claim of a set is unique, and inserting a claim keeps
  the invariant.
\<close>

lemma wins_trans: "wins a b \<Longrightarrow> wins b c \<Longrightarrow> wins a c"
  by (auto simp: wins_def)

lemma wins_asym: "wins a b \<Longrightarrow> \<not> wins b a"
  by (auto simp: wins_def)

lemma wins_total:
  "claimed_gene a = claimed_gene b \<Longrightarrow> \<not> full_tie a b \<Longrightarrow> wins a b \<or> wins b a"
  by (auto simp: wins_def full_tie_def)

lemma best_unique:
  assumes "best S g e" and "best S g e'"
  shows "e = e'"
proof (rule ccontr)
  assume n: "e \<noteq> e'"
  from assms have "e' = e \<or> wins e e'" and "e = e' \<or> wins e' e"
    by (auto simp: best_def)
  with n have "wins e e'" and "wins e' e" by auto
  then show False using wins_asym by blast
qed

lemma represents_None:
  assumes "represents S m" and "m g = None"
  shows "\<forall>c \<in> S. claimed_gene c \<noteq> g"
proof -
  from assms(1) have "case m g of None \<Rightarrow> (\<forall>c \<in> S. claimed_gene c \<noteq> g) | Some e \<Rightarrow> best S g e"
    unfolding represents_def by blast
  with assms(2) show ?thesis by simp
qed

lemma represents_Some:
  assumes "represents S m" and "m g = Some e"
  shows "best S g e"
proof -
  from assms(1) have "case m g of None \<Rightarrow> (\<forall>c \<in> S. claimed_gene c \<noteq> g) | Some e \<Rightarrow> best S g e"
    unfolding represents_def by blast
  with assms(2) show ?thesis by simp
qed

lemma represents_unique:
  assumes "represents S m" and "represents S m'"
  shows "m = m'"
proof
  fix g
  show "m g = m' g"
  proof (cases "m g")
    case None
    with assms(1) have n: "\<forall>c \<in> S. claimed_gene c \<noteq> g" by (rule represents_None)
    show ?thesis
    proof (cases "m' g")
      case None
      with \<open>m g = None\<close> show ?thesis by simp
    next
      case (Some e')
      with assms(2) have "best S g e'" by (rule represents_Some)
      with n show ?thesis by (auto simp: best_def)
    qed
  next
    case (Some e)
    with assms(1) have b: "best S g e" by (rule represents_Some)
    show ?thesis
    proof (cases "m' g")
      case None
      with assms(2) have "\<forall>c \<in> S. claimed_gene c \<noteq> g" by (rule represents_None)
      with b show ?thesis by (auto simp: best_def)
    next
      case (Some e')
      with assms(2) have "best S g e'" by (rule represents_Some)
      with b have "e = e'" by (rule best_unique)
      with Some \<open>m g = Some e\<close> show ?thesis by simp
    qed
  qed
qed

lemma represents_insert:
  assumes t: "no_full_ties (insert c S)" and r: "represents S m"
  shows "represents (insert c S) (insert_claim m c)"
  unfolding represents_def
proof
  fix g
  let ?m' = "insert_claim m c"
  show "case ?m' g of None \<Rightarrow> (\<forall>x \<in> insert c S. claimed_gene x \<noteq> g)
        | Some e \<Rightarrow> best (insert c S) g e"
  proof (cases "g = claimed_gene c")
    case False
    then have same: "?m' g = m g" by (simp add: insert_claim_def split: option.splits)
    show ?thesis
    proof (cases "m g")
      case None
      with r have "\<forall>x \<in> S. claimed_gene x \<noteq> g" by (rule represents_None)
      with False None same show ?thesis by auto
    next
      case (Some e)
      with r have "best S g e" by (rule represents_Some)
      with False have "best (insert c S) g e" by (auto simp: best_def)
      with Some same show ?thesis by simp
    qed
  next
    case True
    show ?thesis
    proof (cases "m g")
      case None
      with r have n: "\<forall>x \<in> S. claimed_gene x \<noteq> g" by (rule represents_None)
      from None True have "?m' g = Some c" by (simp add: insert_claim_def)
      moreover from n True have "best (insert c S) g c" by (auto simp: best_def)
      ultimately show ?thesis by simp
    next
      case (Some e)
      with r have b: "best S g e" by (rule represents_Some)
      show ?thesis
      proof (cases "wins c e")
        case w: True
        with Some True have "?m' g = Some c" by (simp add: insert_claim_def)
        moreover have "best (insert c S) g c"
          unfolding best_def
        proof (intro conjI ballI impI)
          fix x assume "x \<in> insert c S" and "claimed_gene x = g"
          with b have "x = c \<or> x = e \<or> wins e x" by (auto simp: best_def)
          with w show "x = c \<or> wins c x" using wins_trans by blast
        qed (simp_all add: True)
        ultimately show ?thesis by simp
      next
        case nw: False
        with Some True have "?m' g = Some e" by (simp add: insert_claim_def)
        moreover have "best (insert c S) g e"
          unfolding best_def
        proof (intro conjI ballI impI)
          from b show "e \<in> insert c S" and "claimed_gene e = g" by (auto simp: best_def)
          fix x assume x: "x \<in> insert c S" and gx: "claimed_gene x = g"
          show "x = e \<or> wins e x"
          proof (cases "x = c")
            case False
            with x gx b show ?thesis by (auto simp: best_def)
          next
            case xc: True
            show ?thesis
            proof (cases "full_tie c e")
              case True
              from b have "e \<in> insert c S" by (auto simp: best_def)
              with t True have "c = e" by (auto simp: no_full_ties_def)
              with xc show ?thesis by simp
            next
              case False
              from b \<open>g = claimed_gene c\<close> have "claimed_gene c = claimed_gene e"
                by (simp add: best_def)
              from wins_total [OF this False] nw xc show ?thesis by simp
            qed
          qed
        qed
        ultimately show ?thesis by simp
      qed
    qed
  qed
qed

lemma aggregate_process_append:
  "aggregate_process t u ann (rs @ ss) = aggregate_process t u (aggregate_process t u ann rs) ss"
  by (induction rs arbitrary: ann) simp_all

lemma aggregate_flat:
  "aggregate t u ann yss = aggregate_process t u ann (concat yss)"
  by (induction yss arbitrary: ann) (simp_all add: aggregate_process_append)

lemma no_full_ties_subset: "no_full_ties S \<Longrightarrow> T \<subseteq> S \<Longrightarrow> no_full_ties T"
  by (auto simp: no_full_ties_def)

lemma claims_snoc: "claims (rs @ [x]) = claims rs \<union> set (claims_of x)"
  by (auto simp: claims_def)

lemma merged_records:
  "no_full_ties (claims rs) \<Longrightarrow>
   represents (claims rs)
     (records (data (aggregate_process (\<lambda>x. True) update_set empty_annotations rs)))"
proof (induction rs rule: rev_induct)
  case Nil
  show ?case by (simp add: represents_def claims_def empty_annotations_def)
next
  case (snoc x rs)
  let ?a = "aggregate_process (\<lambda>x. True) update_set empty_annotations rs"
  from snoc.prems have "no_full_ties (claims rs)"
    by (rule no_full_ties_subset) (simp add: claims_snoc)
  with snoc.IH have r: "represents (claims rs) (records (data ?a))" by simp
  have step: "\<And>c. claims_of x = [c] \<Longrightarrow>
      represents (claims (rs @ [x])) (insert_claim (records (data ?a)) c)"
  proof -
    fix c assume c: "claims_of x = [c]"
    then have e: "claims (rs @ [x]) = insert c (claims rs)" by (simp add: claims_snoc)
    with snoc.prems have "no_full_ties (insert c (claims rs))" by simp
    from represents_insert [OF this r] e
    show "represents (claims (rs @ [x])) (insert_claim (records (data ?a)) c)" by simp
  qed
  show ?case
  proof (cases x)
    case RNone
    with r show ?thesis by (simp add: aggregate_process_append claims_snoc)
  next
    case NoNearbyFeatures
    with r show ?thesis by (simp add: aggregate_process_append claims_snoc)
  next
    case (Other oc)
    show ?thesis
    proof (cases oc)
      case (Confirmed c)
      with Other step [of c] show ?thesis by (simp add: aggregate_process_append)
    next
      case (PotentialUTRZeroCoverage co)
      show ?thesis
      proof (cases co)
        case None
        with Other PotentialUTRZeroCoverage r show ?thesis
          by (simp add: aggregate_process_append claims_snoc)
      next
        case (Some c)
        with Other PotentialUTRZeroCoverage step [of c] show ?thesis
          by (simp add: aggregate_process_append)
      qed
    qed
  qed
qed

lemma merged_zero_coverage:
  "zero_coverage_count (data (aggregate_process (\<lambda>x. True) update_set ann rs)) =
     zero_coverage_count (data ann) + length (filter zero_coverage rs)"
proof (induction rs arbitrary: ann)
  case Nil
  show ?case by simp
next
  case (Cons x rs)
  show ?case
  proof (cases x)
    case (Other oc)
    then show ?thesis
    proof (cases oc)
      case (Confirmed c)
      with Other show ?thesis by (simp add: Cons.IH)
    next
      case (PotentialUTRZeroCoverage co)
      with Other show ?thesis by (cases co) (simp_all add: Cons.IH)
    qed
  qed (simp_all add: Cons.IH)
qed

lemma claims_cong: "set rs = set rs' \<Longrightarrow> claims rs = claims rs'"
  by (simp add: claims_def)

lemma length_filter_mset: "mset xs = mset ys \<Longrightarrow> length (filter P xs) = length (filter P ys)"
  by (metis mset_filter size_mset)

lemma count_list_mset: "mset xs = mset ys \<Longrightarrow> count_list xs a = count_list ys a"
  by (metis count_mset)

lemmas merge_eval_simps =
  merge_results_def empty_annotations_def insert_claim_def wins_def range_length_def
  claimed_gene_def example_record_def

section \<open>The claims on the peak loop\<close>

text \<open>
  C5. A peak lying strictly inside a candidate gene (\<open>gene.start < peak.start\<close> and
  \<open>peak.end < gene.end\<close>) gives no UTR record for that gene: no feature the peak adds
  to the output has the gene's id as its \<open>Parent\<close>. The ids of the candidate genes are
  distinct, being primary keys of the database.
\<close>

theorem containment_discard:
  assumes g: "gene \<in> set (genes_of (nearby_features db pk))"
    and d: "distinct (map fid (genes_of (nearby_features db pk)))"
    and c: "f_start gene < p_start pk" "p_end pk < f_end gene"
    and r: "process_peak db pk [] = Inr added"
  shows "\<forall>f \<in> set added. map_of (attributes f) ''Parent'' \<noteq> Some [fid gene]"
proof
  fix f assume f: "f \<in> set added"
  let ?genes = "genes_of (nearby_features db pk)"
  from g obtain idx where i: "idx < length ?genes" and e: "?genes ! idx = gene"
    by (auto simp: in_set_conv_nth)
  from c e have n: "gene_step pk ?genes idx = None" by (simp add: gene_step_def Let_def)
  from in_process_peak [OF r f] obtain j where j: "j < length ?genes"
    and s: "gene_step pk ?genes j = Some f" by blast
  from no_record_for_skipped [OF d i n j s] e
  show "map_of (attributes f) ''Parent'' \<noteq> Some [fid gene]" by simp
qed

text \<open>The theorem of C5 on a peak inside gene \<open>g1\<close>, which also holds gene \<open>g2\<close>.\<close>

theorem containment_discard_witness:
  "example_gene ''g1'' ''+'' 100 1000
     \<in> set (genes_of (nearby_features nested_db (example_peak ''p'' 300 500))) \<and>
   distinct (map fid (genes_of (nearby_features nested_db (example_peak ''p'' 300 500)))) \<and>
   f_start (example_gene ''g1'' ''+'' 100 1000) < p_start (example_peak ''p'' 300 500) \<and>
   p_end (example_peak ''p'' 300 500) < f_end (example_gene ''g1'' ''+'' 100 1000) \<and>
   process_peak nested_db (example_peak ''p'' 300 500) [] =
     Inr [utr_feature (example_gene ''g2'' ''+'' 200 400) (example_peak ''p'' 300 500)] \<and>
   map_of (attributes (utr_feature (example_gene ''g2'' ''+'' 200 400) (example_peak ''p'' 300 500)))
     ''Parent'' \<noteq> Some [fid (example_gene ''g1'' ''+'' 100 1000)]"
proof -
  let ?pk = "example_peak ''p'' 300 500"
  let ?g1 = "example_gene ''g1'' ''+'' 100 1000"
  have h1: "?g1 \<in> set (genes_of (nearby_features nested_db ?pk))" by (simp add: eval_simps)
  have h2: "distinct (map fid (genes_of (nearby_features nested_db ?pk)))"
    by (simp add: eval_simps)
  have h3: "f_start ?g1 < p_start ?pk" and h4: "p_end ?pk < f_end ?g1"
    by (simp_all add: eval_simps)
  have out: "process_peak nested_db ?pk [] =
     Inr [utr_feature (example_gene ''g2'' ''+'' 200 400) ?pk]"
    by (simp add: eval_simps)
  from containment_discard [OF h1 h2 h3 h4 out] out h1 h2 h3 h4 show ?thesis by simp
qed

text \<open>
  C1, as amended. When a peak spans the boundary between the gene at \<open>idx\<close> and the
  gene at \<open>idx + 1\<close> (\<open>peak.start < gene.end\<close> and \<open>peak.end > next_gene.start\<close>),
  the loop emits no UTR record for the gene at \<open>idx\<close>. The gene at \<open>idx + 1\<close> is
  evaluated in its own iteration.
\<close>

theorem neighbour_conflict_skips_current:
  assumes i: "Suc idx < length (genes_of (nearby_features db pk))"
    and d: "distinct (map fid (genes_of (nearby_features db pk)))"
    and c: "p_start pk < f_end (genes_of (nearby_features db pk) ! idx)"
           "f_start (genes_of (nearby_features db pk) ! Suc idx) < p_end pk"
    and r: "process_peak db pk [] = Inr added"
  shows "\<forall>f \<in> set added.
           map_of (attributes f) ''Parent'' \<noteq> Some [fid (genes_of (nearby_features db pk) ! idx)]"
proof
  fix f assume f: "f \<in> set added"
  let ?genes = "genes_of (nearby_features db pk)"
  from i have i': "idx < length ?genes" by simp
  from i c have n: "gene_step pk ?genes idx = None" by (simp add: gene_step_def Let_def)
  from in_process_peak [OF r f] obtain j where j: "j < length ?genes"
    and s: "gene_step pk ?genes j = Some f" by blast
  from no_record_for_skipped [OF d i' n j s]
  show "map_of (attributes f) ''Parent'' \<noteq> Some [fid (?genes ! idx)]" .
qed

text \<open>
  C1 as stated fails: the peak \<open>[400, 900]\<close> spans the boundary between gene \<open>gA\<close>
  \<open>[100, 500]\<close> and gene \<open>gB\<close> \<open>[600, 800]\<close>, and the loop emits the record
  \<open>(800, 900)\<close> for \<open>gB\<close>.
\<close>

theorem neighbour_conflict_counterexample:
  "genes_of (nearby_features adjacent_db (example_peak ''p'' 400 900)) =
     [example_gene ''gA'' ''+'' 100 500, example_gene ''gB'' ''+'' 600 800] \<and>
   p_start (example_peak ''p'' 400 900) < f_end (example_gene ''gA'' ''+'' 100 500) \<and>
   f_start (example_gene ''gB'' ''+'' 600 800) < p_end (example_peak ''p'' 400 900) \<and>
   process_peak adjacent_db (example_peak ''p'' 400 900) [] =
     Inr [utr_feature (example_gene ''gB'' ''+'' 600 800) (example_peak ''p'' 400 900)] \<and>
   map_of (attributes (utr_feature (example_gene ''gB'' ''+'' 600 800) (example_peak ''p'' 400 900)))
     ''Parent'' = Some [fid (example_gene ''gB'' ''+'' 600 800)] \<and>
   f_start (utr_feature (example_gene ''gB'' ''+'' 600 800) (example_peak ''p'' 400 900)) = 800 \<and>
   f_end (utr_feature (example_gene ''gB'' ''+'' 600 800) (example_peak ''p'' 400 900)) = 900"
  by (simp add: eval_simps utr_feature_def map_of_utr_attrs)

text \<open>The amended C1 on the peak \<open>[450, 950]\<close>: gene \<open>gA\<close> receives no record.\<close>

theorem neighbour_conflict_skips_current_witness:
  "Suc 0 < length (genes_of (nearby_features adjacent_db (example_peak ''p'' 450 950))) \<and>
   distinct (map fid (genes_of (nearby_features adjacent_db (example_peak ''p'' 450 950)))) \<and>
   genes_of (nearby_features adjacent_db (example_peak ''p'' 450 950)) ! 0 =
     example_gene ''gA'' ''+'' 100 500 \<and>
   p_start (example_peak ''p'' 450 950)
     < f_end (genes_of (nearby_features adjacent_db (example_peak ''p'' 450 950)) ! 0) \<and>
   f_start (genes_of (nearby_features adjacent_db (example_peak ''p'' 450 950)) ! Suc 0)
     < p_end (example_peak ''p'' 450 950) \<and>
   process_peak adjacent_db (example_peak ''p'' 450 950) [] =
     Inr [utr_feature (example_gene ''gB'' ''+'' 600 800) (example_peak ''p'' 450 950)] \<and>
   map_of (attributes (utr_feature (example_gene ''gB'' ''+'' 600 800) (example_peak ''p'' 450 950)))
     ''Parent'' \<noteq> Some [fid (example_gene ''gA'' ''+'' 100 500)]"
proof -
  let ?pk = "example_peak ''p'' 450 950"
  let ?genes = "genes_of (nearby_features adjacent_db ?pk)"
  have h1: "Suc 0 < length ?genes" by (simp add: eval_simps)
  have h2: "distinct (map fid ?genes)" by (simp add: eval_simps)
  have h3: "p_start ?pk < f_end (?genes ! 0)" by (simp add: eval_simps)
  have h4: "f_start (?genes ! Suc 0) < p_end ?pk" by (simp add: eval_simps)
  have g0: "?genes ! 0 = example_gene ''gA'' ''+'' 100 500" by (simp add: eval_simps)
  have out: "process_peak adjacent_db ?pk [] =
     Inr [utr_feature (example_gene ''gB'' ''+'' 600 800) ?pk]"
    by (simp add: eval_simps)
  from neighbour_conflict_skips_current [OF h1 h2 h3 h4 out] out g0 h1 h2 h3 h4
  show ?thesis by simp
qed

text \<open>
  C2, as amended. When features of type \<open>three_prime_UTR\<close> are among the features
  near a peak, each of them with \<open>start \<le> end\<close> as GFF requires, the whole peak is
  skipped: the output is left as it was, so no candidate gene of that peak receives a
  record.
\<close>

theorem already_annotated_skips_peak:
  assumes "\<exists>f \<in> set (nearby_features db pk). featuretype f = ''three_prime_UTR''"
    and "\<forall>f \<in> set (nearby_features db pk).
           featuretype f = ''three_prime_UTR'' \<longrightarrow> f_start f \<le> f_end f"
  shows "process_peak db pk out = Inr out"
proof -
  let ?utrs = "[f \<leftarrow> nearby_features db pk. featuretype f = ''three_prime_UTR'']"
  from assms(1) have ne: "?utrs \<noteq> []" by (auto simp: filter_empty_conv)
  from assms(2) have "\<forall>f \<in> set ?utrs. f_start f \<le> f_end f" by simp
  with ne have "py_any ?utrs = Inr True" by (rule py_any_well_formed)
  moreover from assms(1) have "nearby_features db pk \<noteq> []" by auto
  ultimately show ?thesis by (simp add: process_peak_def Let_def)
qed

text \<open>
  C2 as stated fails: with the annotated 3' UTR of gene \<open>gA\<close> near the peak \<open>[600, 1000]\<close>,
  the other candidate gene \<open>gB\<close> is not evaluated. The body of the gene loop would emit a
  record for it, and the peak adds nothing to the output.
\<close>

theorem already_annotated_counterexample:
  "[f \<leftarrow> nearby_features annotated_db (example_peak ''p'' 600 1000).
      featuretype f = ''three_prime_UTR''] =
     [(example_gene ''gA_utr'' ''+'' 501 550)
        \<lparr> featuretype := ''three_prime_UTR'', attributes := [(''Parent'', [''gA''])] \<rparr>] \<and>
   genes_of (nearby_features annotated_db (example_peak ''p'' 600 1000)) =
     [example_gene ''gA'' ''+'' 100 500, example_gene ''gB'' ''+'' 700 900] \<and>
   gene_step (example_peak ''p'' 600 1000)
     [example_gene ''gA'' ''+'' 100 500, example_gene ''gB'' ''+'' 700 900] 1 =
     Some (utr_feature (example_gene ''gB'' ''+'' 700 900) (example_peak ''p'' 600 1000)) \<and>
   process_peak annotated_db (example_peak ''p'' 600 1000) [] = Inr []"
  by (simp add: eval_simps)

text \<open>The amended C2 on the peak \<open>[520, 950]\<close>.\<close>

theorem already_annotated_skips_peak_witness:
  "[f \<leftarrow> nearby_features annotated_db (example_peak ''q'' 520 950).
      featuretype f = ''three_prime_UTR''] =
     [(example_gene ''gA_utr'' ''+'' 501 550)
        \<lparr> featuretype := ''three_prime_UTR'', attributes := [(''Parent'', [''gA''])] \<rparr>] \<and>
   (501::int) \<le> 550 \<and>
   genes_of (nearby_features annotated_db (example_peak ''q'' 520 950)) =
     [example_gene ''gA'' ''+'' 100 500, example_gene ''gB'' ''+'' 700 900] \<and>
   process_peak annotated_db (example_peak ''q'' 520 950) [] = Inr []"
proof -
  let ?pk = "example_peak ''q'' 520 950"
  have u: "[f \<leftarrow> nearby_features annotated_db ?pk. featuretype f = ''three_prime_UTR''] =
     [(example_gene ''gA_utr'' ''+'' 501 550)
        \<lparr> featuretype := ''three_prime_UTR'', attributes := [(''Parent'', [''gA''])] \<rparr>]"
    by (simp add: eval_simps)
  have h1: "\<exists>f \<in> set (nearby_features annotated_db ?pk). featuretype f = ''three_prime_UTR''"
    by (simp add: eval_simps)
  have h2: "\<forall>f \<in> set (nearby_features annotated_db ?pk).
              featuretype f = ''three_prime_UTR'' \<longrightarrow> f_start f \<le> f_end f"
    by (simp add: eval_simps)
  have g: "genes_of (nearby_features annotated_db ?pk) =
     [example_gene ''gA'' ''+'' 100 500, example_gene ''gB'' ''+'' 700 900]"
    by (simp add: eval_simps)
  from already_annotated_skips_peak [OF h1 h2, of "[]"] u g show ?thesis by simp
qed

text \<open>
  Why the amended C2 asks for \<open>start \<le> end\<close>: a feature of type \<open>three_prime_UTR\<close> of
  length 0 is false at line 36, so the peak is not skipped and both genes receive a
  record; one of negative length ends the run in a \<open>ValueError\<close>.
\<close>

lemma degenerate_utr_not_skipped:
  "process_peak zero_length_db (example_peak ''p'' 600 1000) [] =
     Inr [utr_feature (example_gene ''gA'' ''+'' 100 500) (example_peak ''p'' 600 1000),
          utr_feature (example_gene ''gB'' ''+'' 700 900) (example_peak ''p'' 600 1000)] \<and>
   process_peak negative_length_db (example_peak ''p'' 600 1000) [] = Inl ValueError"
  by (simp add: eval_simps zero_length_db_def negative_length_db_def)

text \<open>
  C4. For a candidate gene and a peak with \<open>peak.end > gene.end\<close> that pass the
  containment check and the neighbour check (no annotated 3' UTR being near the peak),
  a record for the gene is emitted, and every record emitted for the gene has the range
  \<open>[gene.end, peak.end]\<close>.
\<close>

theorem forward_extension_range:
  assumes u: "\<not> list_ex (\<lambda>f. featuretype f = ''three_prime_UTR'') (nearby_features db pk)"
    and i: "idx < length (genes_of (nearby_features db pk))"
    and g: "gene = genes_of (nearby_features db pk) ! idx"
    and d: "distinct (map fid (genes_of (nearby_features db pk)))"
    and nc: "\<not> (f_start gene < p_start pk \<and> p_end pk < f_end gene)"
    and nn: "\<not> (Suc idx < length (genes_of (nearby_features db pk)) \<and> p_start pk < f_end gene \<and>
               f_start (genes_of (nearby_features db pk) ! Suc idx) < p_end pk)"
    and e: "f_end gene < p_end pk"
  shows "\<exists>added. process_peak db pk [] = Inr added \<and>
           (\<exists>f \<in> set added. map_of (attributes f) ''Parent'' = Some [fid gene]) \<and>
           (\<forall>f \<in> set added.
              map_of (attributes f) ''Parent'' = Some [fid gene] \<longrightarrow>
                f_start f = f_end gene \<and> f_end f = p_end pk)"
proof -
  let ?genes = "genes_of (nearby_features db pk)"
  let ?added = "gene_loop pk ?genes 0 []"
  from u have r: "process_peak db pk [] = Inr ?added" by (rule process_peak_genes)
  from nc nn e g have s: "gene_step pk ?genes idx = Some (utr_feature gene pk)"
    using gene_step_emits [of ?genes idx pk] by simp
  with i have "utr_feature gene pk \<in> set ?added" by (auto simp: set_gene_loop)
  then have ex: "\<exists>f \<in> set ?added. map_of (attributes f) ''Parent'' = Some [fid gene]"
    using parent_utr_feature by blast
  have all: "\<forall>f \<in> set ?added.
          map_of (attributes f) ''Parent'' = Some [fid gene] \<longrightarrow>
            f_start f = f_end gene \<and> f_end f = p_end pk"
  proof (intro ballI impI)
    fix f assume f: "f \<in> set ?added"
      and p: "map_of (attributes f) ''Parent'' = Some [fid gene]"
    from in_process_peak [OF r f] obtain j where j: "j < length ?genes"
      and sj: "gene_step pk ?genes j = Some f" by blast
    from sj have fj: "f = utr_feature (?genes ! j) pk" by (rule gene_step_Some)
    with p have "fid (?genes ! j) = fid gene" by (simp add: parent_utr_feature)
    with g i j have "map fid ?genes ! j = map fid ?genes ! idx" by simp
    moreover have "j < length (map fid ?genes)" "idx < length (map fid ?genes)"
      using i j by simp_all
    ultimately have "j = idx" using d nth_eq_iff_index_eq by blast
    with fj g show "f_start f = f_end gene \<and> f_end f = p_end pk"
      by (simp add: utr_feature_def)
  qed
  from r ex all show ?thesis by blast
qed

text \<open>
  C4 on the spec's example: a gene ending at 1000 and the peak \<open>[900, 1200]\<close> give the
  range \<open>(1000, 1200)\<close>.
\<close>

theorem forward_extension_range_witness:
  "\<not> list_ex (\<lambda>f. featuretype f = ''three_prime_UTR'')
       (nearby_features single_db (example_peak ''p'' 900 1200)) \<and>
   genes_of (nearby_features single_db (example_peak ''p'' 900 1200)) =
     [example_gene ''g'' ''+'' 500 1000] \<and>
   f_end (example_gene ''g'' ''+'' 500 1000) = 1000 \<and>
   p_start (example_peak ''p'' 900 1200) = 900 \<and>
   p_end (example_peak ''p'' 900 1200) = 1200 \<and>
   process_peak single_db (example_peak ''p'' 900 1200) [] =
     Inr [utr_feature (example_gene ''g'' ''+'' 500 1000) (example_peak ''p'' 900 1200)] \<and>
   f_start (utr_feature (example_gene ''g'' ''+'' 500 1000) (example_peak ''p'' 900 1200)) = 1000 \<and>
   f_end (utr_feature (example_gene ''g'' ''+'' 500 1000) (example_peak ''p'' 900 1200)) = 1200"
proof -
  let ?pk = "example_peak ''p'' 900 1200"
  let ?g = "example_gene ''g'' ''+'' 500 1000"
  let ?genes = "genes_of (nearby_features single_db ?pk)"
  have gs: "?genes = [?g]" by (simp add: eval_simps)
  have u: "\<not> list_ex (\<lambda>f. featuretype f = ''three_prime_UTR'') (nearby_features single_db ?pk)"
    by (simp add: eval_simps)
  have i: "0 < length ?genes" and g: "?g = ?genes ! 0" and d: "distinct (map fid ?genes)"
    by (simp_all add: gs)
  have nc: "\<not> (f_start ?g < p_start ?pk \<and> p_end ?pk < f_end ?g)"
    by (simp add: example_gene_def example_peak_def)
  have nn: "\<not> (Suc 0 < length ?genes \<and> p_start ?pk < f_end ?g \<and>
               f_start (?genes ! Suc 0) < p_end ?pk)"
    by (simp add: gs)
  have e: "f_end ?g < p_end ?pk" by (simp add: example_gene_def example_peak_def)
  have out: "process_peak single_db ?pk [] = Inr [utr_feature ?g ?pk]" by (simp add: eval_simps)
  have par: "map_of (attributes (utr_feature ?g ?pk)) ''Parent'' = Some [fid ?g]"
    by (rule parent_utr_feature)
  from forward_extension_range [OF u i g d nc nn e] out par
  have "f_start (utr_feature ?g ?pk) = f_end ?g \<and> f_end (utr_feature ?g ?pk) = p_end ?pk"
    by simp
  with u gs out show ?thesis by (simp add: example_gene_def example_peak_def)
qed

text \<open>
  C10, as amended. Every feature the script emits comes from a forward peak and one of
  its candidate genes: its type is \<open>three_prime_UTR\<close>, its \<open>ID\<close> is the gene's id
  followed by \<open>_UTR\<close>, its \<open>Parent\<close> is the gene's id, its strand and seqid are the
  gene's, its \<open>colour\<close> is \<open>3\<close>, and every attribute of the gene other than \<open>ID\<close>,
  \<open>Parent\<close> and \<open>colour\<close> is copied unchanged.
\<close>

theorem utr_record_well_formed:
  assumes "peaks_to_UTR db forward_broad_peaks reverse_broad_peaks = Inr out"
    and "f \<in> set out"
  shows "\<exists>pk \<in> set forward_broad_peaks. \<exists>gene \<in> set (genes_of (nearby_features db pk)).
           featuretype f = ''three_prime_UTR'' \<and>
           map_of (attributes f) ''ID'' = Some [fid gene @ ''_UTR''] \<and>
           map_of (attributes f) ''Parent'' = Some [fid gene] \<and>
           strand f = strand gene \<and>
           seqid f = seqid gene \<and>
           map_of (attributes f) ''colour'' = Some [''3''] \<and>
           (\<forall>k. k \<notin> {''ID'', ''Parent'', ''colour''} \<longrightarrow>
              map_of (attributes f) k = map_of (attributes gene) k)"
proof -
  from assms have l: "peak_loop db forward_broad_peaks [] = Inr out"
    by (simp add: peaks_to_UTR_def)
  from in_peak_loop [OF l assms(2)] obtain pk added where pk: "pk \<in> set forward_broad_peaks"
    and r: "process_peak db pk [] = Inr added" and f: "f \<in> set added"
    by auto
  let ?genes = "genes_of (nearby_features db pk)"
  from in_process_peak [OF r f] obtain j where j: "j < length ?genes"
    and sj: "gene_step pk ?genes j = Some f" by blast
  from sj have fj: "f = utr_feature (?genes ! j) pk" by (rule gene_step_Some)
  from j have m: "?genes ! j \<in> set ?genes" by simp
  have "featuretype f = ''three_prime_UTR'' \<and>
           map_of (attributes f) ''ID'' = Some [fid (?genes ! j) @ ''_UTR''] \<and>
           map_of (attributes f) ''Parent'' = Some [fid (?genes ! j)] \<and>
           strand f = strand (?genes ! j) \<and>
           seqid f = seqid (?genes ! j) \<and>
           map_of (attributes f) ''colour'' = Some [''3''] \<and>
           (\<forall>k. k \<notin> {''ID'', ''Parent'', ''colour''} \<longrightarrow>
              map_of (attributes f) k = map_of (attributes (?genes ! j)) k)"
    unfolding fj by (simp add: utr_feature_def map_of_utr_attrs)
  with pk m show ?thesis by blast
qed

text \<open>
  C10 as stated fails: a gene with the attribute \<open>colour = 5\<close> gives a record whose
  \<open>colour\<close> is \<open>3\<close> (line 54), so not every remaining attribute is copied unchanged.
\<close>

theorem utr_record_colour_counterexample:
  "peaks_to_UTR coloured_db [example_peak ''p'' 900 1200] [] =
     Inr [utr_feature
        ((example_gene ''g'' ''+'' 500 1000)
           \<lparr> attributes := [(''ID'', [''g'']), (''colour'', [''5'']), (''Name'', [''abc''])] \<rparr>)
        (example_peak ''p'' 900 1200)] \<and>
   map_of (attributes
      ((example_gene ''g'' ''+'' 500 1000)
           \<lparr> attributes := [(''ID'', [''g'']), (''colour'', [''5'']), (''Name'', [''abc''])] \<rparr>))
     ''colour'' = Some [''5''] \<and>
   attributes (utr_feature
        ((example_gene ''g'' ''+'' 500 1000)
           \<lparr> attributes := [(''ID'', [''g'']), (''colour'', [''5'']), (''Name'', [''abc''])] \<rparr>)
        (example_peak ''p'' 900 1200)) =
     [(''ID'', [''g_UTR'']), (''colour'', [''3'']), (''Name'', [''abc'']), (''Parent'', [''g''])]"
  by (simp add: peaks_to_UTR_def eval_simps utr_feature_def utr_attrs_def)

text \<open>The amended C10 on the record of the spec's example.\<close>

theorem utr_record_well_formed_witness:
  "peaks_to_UTR single_db [example_peak ''p'' 900 1200] [] =
     Inr [utr_feature (example_gene ''g'' ''+'' 500 1000) (example_peak ''p'' 900 1200)] \<and>
   featuretype (utr_feature (example_gene ''g'' ''+'' 500 1000) (example_peak ''p'' 900 1200))
     = ''three_prime_UTR'' \<and>
   map_of (attributes (utr_feature (example_gene ''g'' ''+'' 500 1000) (example_peak ''p'' 900 1200)))
     ''ID'' = Some [''g_UTR''] \<and>
   map_of (attributes (utr_feature (example_gene ''g'' ''+'' 500 1000) (example_peak ''p'' 900 1200)))
     ''Parent'' = Some [''g''] \<and>
   strand (utr_feature (example_gene ''g'' ''+'' 500 1000) (example_peak ''p'' 900 1200)) = ''+'' \<and>
   seqid (utr_feature (example_gene ''g'' ''+'' 500 1000) (example_peak ''p'' 900 1200)) = ''chr1'' \<and>
   map_of (attributes (utr_feature (example_gene ''g'' ''+'' 500 1000) (example_peak ''p'' 900 1200)))
     ''colour'' = Some [''3'']"
proof -
  let ?pk = "example_peak ''p'' 900 1200"
  let ?g = "example_gene ''g'' ''+'' 500 1000"
  let ?f = "utr_feature ?g ?pk"
  have out: "peaks_to_UTR single_db [?pk] [] = Inr [?f]"
    by (simp add: peaks_to_UTR_def eval_simps)
  have m: "?f \<in> set [?f]" by simp
  have gs: "genes_of (nearby_features single_db ?pk) = [?g]" by (simp add: eval_simps)
  from utr_record_well_formed [OF out m] gs
  have "featuretype ?f = ''three_prime_UTR'' \<and>
        map_of (attributes ?f) ''ID'' = Some [fid ?g @ ''_UTR''] \<and>
        map_of (attributes ?f) ''Parent'' = Some [fid ?g] \<and>
        strand ?f = strand ?g \<and> seqid ?f = seqid ?g \<and>
        map_of (attributes ?f) ''colour'' = Some [''3'']"
    by simp
  with out show ?thesis by (simp add: example_gene_def)
qed

section \<open>The reverse strand\<close>

text \<open>The rows of the reverse file have no effect on the output.\<close>

lemma reverse_file_ignored:
  "peaks_to_UTR db forward_broad_peaks reverse_broad_peaks = peaks_to_UTR db forward_broad_peaks []"
  by (simp add: peaks_to_UTR_def)

text \<open>
  C3 asks that a reverse-strand peak extending past a gene give the range from the peak
  start to the gene start. The script does not do so: with the gene \<open>[500, 1000]\<close> on
  the strand \<open>-\<close>, which a query on that strand finds, and the reverse peak
  \<open>[300, 600]\<close>, the output is empty.
\<close>

theorem reverse_peaks_not_processed:
  "region [example_gene ''g'' ''-'' 500 1000] ''chr1'' 100 800 ''-'' =
     [example_gene ''g'' ''-'' 500 1000] \<and>
   peaks_to_UTR reverse_db [] [example_peak ''r'' 300 600] = Inr []"
  by (simp add: peaks_to_UTR_def eval_simps)

section \<open>The claims on the pipeline\<close>

text \<open>
  C7. With both \<open>override_utr\<close> and \<open>extend_utr\<close> set, the program exits with
  status 1 and has done no work: nothing after the checks has run.
\<close>

theorem exclusive_flags_rejected:
  assumes "override_utr a" and "extend_utr a"
  shows "exit_status (peaks2utr_main path_exists gff_basename pipeline a) = 1 \<and>
         work (peaks2utr_main path_exists gff_basename pipeline a) = []"
  using assms by (simp add: peaks2utr_main_def perform_checks_def)

text \<open>
  C7 on the default arguments with both flags set; with \<open>override_utr\<close> alone the
  pipeline runs.
\<close>

theorem exclusive_flags_rejected_witness:
  "override_utr (default_args \<lparr> override_utr := True, extend_utr := True \<rparr>) \<and>
   extend_utr (default_args \<lparr> override_utr := True, extend_utr := True \<rparr>) \<and>
   exit_status (peaks2utr_main (\<lambda>p. False) (\<lambda>p. ''genes'') (\<lambda>a. (0, [''peak_1'', ''peak_2'']))
     (default_args \<lparr> override_utr := True, extend_utr := True \<rparr>)) = 1 \<and>
   work (peaks2utr_main (\<lambda>p. False) (\<lambda>p. ''genes'') (\<lambda>a. (0, [''peak_1'', ''peak_2'']))
     (default_args \<lparr> override_utr := True, extend_utr := True \<rparr>)) = [] \<and>
   work (peaks2utr_main (\<lambda>p. False) (\<lambda>p. ''genes'') (\<lambda>a. (0, [''peak_1'', ''peak_2'']))
     (default_args \<lparr> override_utr := True \<rparr>)) = [''peak_1'', ''peak_2'']"
proof -
  let ?a = "default_args \<lparr> override_utr := True, extend_utr := True \<rparr>"
  have h1: "override_utr ?a" and h2: "extend_utr ?a" by simp_all
  have w: "work (peaks2utr_main (\<lambda>p. False) (\<lambda>p. ''genes'') (\<lambda>a. (0, [''peak_1'', ''peak_2'']))
     (default_args \<lparr> override_utr := True \<rparr>)) = [''peak_1'', ''peak_2'']"
    by (simp add: peaks2utr_main_def perform_checks_def default_args_def)
  from exclusive_flags_rejected [OF h1 h2,
      of "\<lambda>p. False" "\<lambda>p. ''genes''" "\<lambda>a. (0, [''peak_1'', ''peak_2''])"] h1 h2 w
  show ?thesis by simp
qed

text \<open>
  C8, as amended. For a collection \<open>P\<close> of fewer than \<open>2^52\<close> peaks and a processor
  count from 1 to below \<open>2^52\<close>, the batches of line 162 are parts of \<open>P\<close>:
  concatenated in order they give \<open>P\<close> back, so their union is \<open>P\<close>; there are at most
  as many batches as processors; each is non-empty, keeps the order of \<open>P\<close> and has at
  most \<open>ceil(len(P) / processors)\<close> peaks, that is, one peak fewer in each processor's
  share would not cover \<open>P\<close>; and when no peak occurs twice in \<open>P\<close>, no peak is in two
  batches.
\<close>

theorem partition_invariant:
  assumes "0 < procs" and "procs < 2 ^ 52" and "int (length P) < 2 ^ 52"
  shows "\<exists>bs. batches beyond P procs = Inr bs \<and>
           concat bs = P \<and>
           (\<Union>b \<in> set bs. set b) = set P \<and>
           int (length bs) \<le> procs \<and>
           (\<forall>b \<in> set bs. b \<noteq> [] \<and> subseq b P \<and>
                (int (length b) - 1) * procs < int (length P)) \<and>
           (distinct P \<longrightarrow>
              (\<forall>i j. i < j \<and> j < length bs \<longrightarrow> set (bs ! i) \<inter> set (bs ! j) = {}))"
proof -
  let ?N = "int (length P)"
  let ?n = "- ((- ?N) div procs)"
  let ?bs = "iter_batches P ?n"
  from assms have "ceil_true_div beyond ?N procs = Inr ?n"
    by (simp add: ceil_true_div_def)
  then have b: "batches beyond P procs = Inr ?bs" by (simp add: batches_def)
  from assms(1) have up: "?N \<le> ?n * procs" and lo: "(?n - 1) * procs < ?N"
    by (rule ceiling_bounds)+
  have "P = [] \<or> 0 < ?n"
  proof (cases "P = []")
    case False
    then have "0 < ?N" by simp
    from this up have "0 < ?n * procs" by (rule less_le_trans)
    with assms(1) have "0 < ?n" using zero_less_mult_pos2 by blast
    then show ?thesis ..
  qed simp
  then have c: "concat ?bs = P" by (rule concat_iter_batches)
  then have u: "(\<Union>b \<in> set ?bs. set b) = set P" by (metis set_concat)
  from assms(1) up have l: "int (length ?bs) \<le> procs"
    by (intro length_iter_batches_le) (simp_all add: mult.commute)
  have p: "\<forall>b \<in> set ?bs. b \<noteq> [] \<and> subseq b P \<and> (int (length b) - 1) * procs < ?N"
  proof
    fix x assume x: "x \<in> set ?bs"
    from iter_batches_parts [OF x] have ne: "x \<noteq> []" and le: "int (length x) \<le> ?n" by simp_all
    from subseq_concat_part [OF x] c have sq: "subseq x P" by simp
    from le assms(1) have "(int (length x) - 1) * procs \<le> (?n - 1) * procs"
      by (simp add: mult_right_mono)
    with lo have "(int (length x) - 1) * procs < ?N" by simp
    with ne sq show "x \<noteq> [] \<and> subseq x P \<and> (int (length x) - 1) * procs < ?N" by simp
  qed
  have d: "distinct P \<longrightarrow>
      (\<forall>i j. i < j \<and> j < length ?bs \<longrightarrow> set (?bs ! i) \<inter> set (?bs ! j) = {})"
    using parts_disjoint [of ?bs] c by simp
  from b c u l p d show ?thesis by blast
qed

text \<open>
  C8 as stated fails for a batch count that is not positive: with 0 processors line 162
  raises \<open>ZeroDivisionError\<close>, and with -2 the size is -2 and there are no batches, so
  their union is not the collection.
\<close>

theorem partition_counterexample:
  "batches (\<lambda>a b. Inl OverflowError) [''p1'', ''p2'', ''p3'', ''p4'', ''p5''] 0 =
     Inl ZeroDivisionError \<and>
   ceil_true_div (\<lambda>a b. Inl OverflowError) 5 (- 2) = Inr (- 2) \<and>
   batches (\<lambda>a b. Inl OverflowError) [''p1'', ''p2'', ''p3'', ''p4'', ''p5''] (- 2) = Inr []"
  by (simp add: batches_def ceil_true_div_def iter_batches.simps)

text \<open>The amended C8 on five peaks and two processors: batches of three and two peaks.\<close>

theorem partition_invariant_witness:
  "(0::int) < 2 \<and> (2::int) < 2 ^ 52 \<and>
   int (length [''p1'', ''p2'', ''p3'', ''p4'', ''p5'']) < 2 ^ 52 \<and>
   batches (\<lambda>a b. Inl OverflowError) [''p1'', ''p2'', ''p3'', ''p4'', ''p5''] 2 =
     Inr [[''p1'', ''p2'', ''p3''], [''p4'', ''p5'']] \<and>
   concat [[''p1'', ''p2'', ''p3''], [''p4'', ''p5'']] = [''p1'', ''p2'', ''p3'', ''p4'', ''p5''] \<and>
   distinct [''p1'', ''p2'', ''p3'', ''p4'', ''p5''] \<and>
   set [''p1'', ''p2'', ''p3''] \<inter> set [''p4'', ''p5''] = {} \<and>
   subseq [''p4'', ''p5''] [''p1'', ''p2'', ''p3'', ''p4'', ''p5'']"
proof -
  let ?P = "[''p1'', ''p2'', ''p3'', ''p4'', ''p5'']"
  let ?bs = "[[''p1'', ''p2'', ''p3''], [''p4'', ''p5'']]"
  let ?beyond = "\<lambda>(a::int) (b::int). (Inl OverflowError :: py_error + int)"
  have h1: "(0::int) < 2" and h2: "(2::int) < 2 ^ 52" and h3: "int (length ?P) < 2 ^ 52"
    by simp_all
  have b: "batches ?beyond ?P 2 = Inr ?bs"
    by (simp add: batches_def ceil_true_div_def iter_batches.simps)
  have d: "distinct ?P" by simp
  from partition_invariant [OF h1 h2 h3, of ?beyond] b
  have c: "concat ?bs = ?P"
    and p: "\<forall>b \<in> set ?bs. b \<noteq> [] \<and> subseq b ?P \<and> (int (length b) - 1) * 2 < int (length ?P)"
    and j: "distinct ?P \<longrightarrow> (\<forall>i j. i < j \<and> j < length ?bs \<longrightarrow> set (?bs ! i) \<inter> set (?bs ! j) = {})"
    by auto
  from j d have "set (?bs ! 0) \<inter> set (?bs ! 1) = {}"
    by (metis One_nat_def lessI length_Cons list.size(3) zero_less_one)
  then have i: "set [''p1'', ''p2'', ''p3''] \<inter> set [''p4'', ''p5''] = {}" by simp
  from p have s: "subseq [''p4'', ''p5''] ?P" by simp
  from h1 h2 h3 b c d i s show ?thesis by blast
qed



text \<open>
  C9, as the code and section 4.3 have it: the final annotation set does not depend on
  the order in which the results arrive, provided that no two different claims for the
  same gene tie on both the length of the UTR range and the signal value. The results of
  two runs over the same peaks, features and coverage data are the same results in
  another order and another grouping by process; the merge of both is then the same
  annotation set, mapping and both counters.
\<close>

theorem arrival_order_without_full_ties:
  assumes p: "mset (concat yielded) = mset (concat yielded')"
    and t: "no_full_ties (claims (concat yielded))"
  shows "merge_results yielded = merge_results yielded'"
proof -
  let ?f = "\<lambda>rs. aggregate_process (\<lambda>x. True) update_set empty_annotations rs"
  let ?rs = "concat yielded" and ?rs' = "concat yielded'"
  from p have "set ?rs = set ?rs'" by (rule mset_eq_setD)
  then have c: "claims ?rs' = claims ?rs" by (simp add: claims_cong)
  from t have r: "represents (claims ?rs) (records (data (?f ?rs)))" by (rule merged_records)
  from t c have "no_full_ties (claims ?rs')" by simp
  then have "represents (claims ?rs') (records (data (?f ?rs')))" by (rule merged_records)
  with c have "represents (claims ?rs) (records (data (?f ?rs')))" by simp
  with r have m: "records (data (?f ?rs)) = records (data (?f ?rs'))" by (rule represents_unique)
  have z: "zero_coverage_count (data (?f ?rs)) = zero_coverage_count (data (?f ?rs'))"
    using length_filter_mset [OF p] by (simp add: merged_zero_coverage)
  have n: "no_features_counter (?f ?rs) = no_features_counter (?f ?rs')"
    using count_list_mset [OF p] by (simp add: counter_aggregate_process)
  from m z have "data (?f ?rs) = data (?f ?rs')" by (simp add: annotation_set.equality)
  with n have "?f ?rs = ?f ?rs'" by (simp add: annotations.equality)
  then show ?thesis by (simp add: merge_results_def aggregate_flat)
qed

text \<open>
  C9 as stated fails at a full tie: two peaks claim the gene \<open>g\<close> with the same range
  and the same signal value, one record flagged \<open>truncated\<close> and the other not. The
  first to arrive is kept, so the two arrival orders give two different annotation sets.
\<close>

theorem arrival_order_counterexample:
  "mset (concat [[Other (Confirmed (example_record 1100 {}, 5)),
                  Other (Confirmed (example_record 1100 {truncated}, 5))]]) =
   mset (concat [[Other (Confirmed (example_record 1100 {truncated}, 5)),
                  Other (Confirmed (example_record 1100 {}, 5))]]) \<and>
   records (data (merge_results
     [[Other (Confirmed (example_record 1100 {}, 5)),
       Other (Confirmed (example_record 1100 {truncated}, 5))]])) ''g'' =
     Some (example_record 1100 {}, 5) \<and>
   records (data (merge_results
     [[Other (Confirmed (example_record 1100 {truncated}, 5)),
       Other (Confirmed (example_record 1100 {}, 5))]])) ''g'' =
     Some (example_record 1100 {truncated}, 5) \<and>
   flags (example_record 1100 {}) \<noteq> flags (example_record 1100 {truncated})"
  by (simp add: merge_eval_simps)

text \<open>
  The amended C9 on the tie-break example of section 8, with a peak without nearby
  features and a zero-coverage outcome beside it: the claims of length 150 and 200 for
  the same gene arrive in two orders, from different processes, and the one of length
  200 is kept in both.
\<close>

theorem arrival_order_without_full_ties_witness:
  "mset (concat [[Other (Confirmed (example_record 1150 {}, 4)), NoNearbyFeatures],
                 [Other (PotentialUTRZeroCoverage None),
                  Other (Confirmed (example_record 1200 {truncated}, 2))]]) =
   mset (concat [[Other (Confirmed (example_record 1200 {truncated}, 2)),
                  Other (PotentialUTRZeroCoverage None)],
                 [NoNearbyFeatures, Other (Confirmed (example_record 1150 {}, 4))]]) \<and>
   no_full_ties (claims (concat
     [[Other (Confirmed (example_record 1150 {}, 4)), NoNearbyFeatures],
      [Other (PotentialUTRZeroCoverage None),
       Other (Confirmed (example_record 1200 {truncated}, 2))]])) \<and>
   merge_results [[Other (Confirmed (example_record 1150 {}, 4)), NoNearbyFeatures],
                  [Other (PotentialUTRZeroCoverage None),
                   Other (Confirmed (example_record 1200 {truncated}, 2))]] =
   merge_results [[Other (Confirmed (example_record 1200 {truncated}, 2)),
                   Other (PotentialUTRZeroCoverage None)],
                  [NoNearbyFeatures, Other (Confirmed (example_record 1150 {}, 4))]] \<and>
   records (data (merge_results
     [[Other (Confirmed (example_record 1200 {truncated}, 2)),
       Other (PotentialUTRZeroCoverage None)],
      [NoNearbyFeatures, Other (Confirmed (example_record 1150 {}, 4))]])) ''g'' =
     Some (example_record 1200 {truncated}, 2) \<and>
   zero_coverage_count (data (merge_results
     [[Other (Confirmed (example_record 1200 {truncated}, 2)),
       Other (PotentialUTRZeroCoverage None)],
      [NoNearbyFeatures, Other (Confirmed (example_record 1150 {}, 4))]])) = 1 \<and>
   no_features_counter (merge_results
     [[Other (Confirmed (example_record 1200 {truncated}, 2)),
       Other (PotentialUTRZeroCoverage None)],
      [NoNearbyFeatures, Other (Confirmed (example_record 1150 {}, 4))]]) = 1"
proof -
  let ?a = "[[Other (Confirmed (example_record 1150 {}, 4)), NoNearbyFeatures],
             [Other (PotentialUTRZeroCoverage None),
              Other (Confirmed (example_record 1200 {truncated}, 2))]]"
  let ?b = "[[Other (Confirmed (example_record 1200 {truncated}, 2)),
              Other (PotentialUTRZeroCoverage None)],
             [NoNearbyFeatures, Other (Confirmed (example_record 1150 {}, 4))]]"
  have p: "mset (concat ?a) = mset (concat ?b)" by simp
  have t: "no_full_ties (claims (concat ?a))"
    by (simp add: no_full_ties_def claims_def full_tie_def range_length_def
        claimed_gene_def example_record_def)
  have r: "records (data (merge_results ?b)) ''g'' = Some (example_record 1200 {truncated}, 2)"
    by (simp add: merge_eval_simps)
  have z: "zero_coverage_count (data (merge_results ?b)) = 1"
    by (simp add: merge_eval_simps)
  have n: "no_features_counter (merge_results ?b) = 1"
    by (simp add: merge_eval_simps)
  from arrival_order_without_full_ties [OF p t] p t r z n show ?thesis by simp
qed

end
